theory Spec2Isabelle
  imports Main "HOL-Library.Sublist"
begin

section \<open>Strings\<close>

text \<open>
  A Python \<open>str\<close> is modelled as a \<open>string\<close>, one \<open>char\<close> per character, which covers
  the strings whose code points are below 256. On that range \<open>isspace\<close> is the set of
  characters that \<open>str.strip()\<close> removes and \<open>lower_char\<close> is the case mapping of
  \<open>str.lower()\<close>.
\<close>

definition isspace :: "char \<Rightarrow> bool" where
  "isspace c =
     (let n = (of_char c :: nat)
      in (9 \<le> n \<and> n \<le> 13) \<or> (28 \<le> n \<and> n \<le> 32) \<or> n = 133 \<or> n = 160)"

definition strip :: "string \<Rightarrow> string" where
  "strip s = rev (dropWhile isspace (rev (dropWhile isspace s)))"

definition lower_char :: "char \<Rightarrow> char" where
  "lower_char c =
     (let n = (of_char c :: nat)
      in if (65 \<le> n \<and> n \<le> 90) \<or> (192 \<le> n \<and> n \<le> 222 \<and> n \<noteq> 215)
         then char_of (n + 32) else c)"

definition lower :: "string \<Rightarrow> string" where
  "lower s = map lower_char s"

text \<open>
  \<open>upper\<close> is applied by the program to a key of the source table only, where every
  character is one of \<open>a\<close> to \<open>z\<close>.
\<close>

definition upper_char :: "char \<Rightarrow> char" where
  "upper_char c =
     (let n = (of_char c :: nat)
      in if 97 \<le> n \<and> n \<le> 122 then char_of (n - 32) else c)"

definition upper :: "string \<Rightarrow> string" where
  "upper s = map upper_char s"

definition startswith :: "string \<Rightarrow> string \<Rightarrow> bool" where
  "startswith s p = (take (length p) s = p)"

fun join :: "string \<Rightarrow> string list \<Rightarrow> string" where
  "join sep [] = []"
| "join sep [x] = x"
| "join sep (x # y # ys) = x @ sep @ join sep (y # ys)"

section \<open>Exceptions\<close>

text \<open>
  The exception classes the script raises or catches. \<open>RequestException\<close> stands for
  \<open>requests.exceptions.RequestException\<close> and its subclasses; \<open>Exception\<close> for any other
  exception a library call raises. Each carries the text of \<open>str(e)\<close>.
\<close>

datatype exn =
    RequestException string
  | ValueError string
  | NameError string
  | RuntimeError string
  | Exception string

fun str :: "exn \<Rightarrow> string" where
  "str (RequestException m) = m"
| "str (ValueError m) = m"
| "str (NameError m) = m"
| "str (RuntimeError m) = m"
| "str (Exception m) = m"

section \<open>The source table\<close>

text \<open>
  One entry of \<open>SOURCES_CONFIG\<close>. Every entry of the table has the same six keys, so the
  inner dictionaries are a record; the default \<open>15\<close> of \<open>config.get('max_items', 15)\<close> is
  never taken. A \<open>link_filter\<close> lambda returns \<open>href and ...\<close>, of which the script uses
  the truth value only.
\<close>

record config =
  url :: string
  headline_selector :: string
  link_selector :: string
  base_url :: string
  link_filter :: "string \<Rightarrow> bool"
  max_items :: int

definition DEFAULT_MAX_ITEMS :: int where
  "DEFAULT_MAX_ITEMS = 10"

definition bbc :: config where
  "bbc = \<lparr> url = ''https://www.bbc.com/news'',
           headline_selector = ''[data-testid=\"card-headline\"]'',
           link_selector = ''a[data-testid=\"internal-link\"]'',
           base_url = ''https://www.bbc.com'',
           link_filter = (\<lambda>href. href \<noteq> [] \<and> startswith href ''/news''),
           max_items = DEFAULT_MAX_ITEMS \<rparr>"

definition cnn :: config where
  "cnn = \<lparr> url = ''https://www.cnn.com'',
           headline_selector = ''.container__headline'',
           link_selector = ''a.container__link'',
           base_url = ''https://www.cnn.com'',
           link_filter = (\<lambda>href. href \<noteq> [] \<and> \<not> startswith href ''#''),
           max_items = DEFAULT_MAX_ITEMS \<rparr>"

definition fox :: config where
  "fox = \<lparr> url = ''https://www.foxnews.com'',
           headline_selector = '' h3.title a'',
           link_selector = ''a[href*=\"/politics/\"], a[href*=\"/us/\"], a[href*=\"/world/\"], a[href*=\"/opinion/\"], a[href*=\"/entertainment/\"]'',
           base_url = ''https://www.foxnews.com'',
           link_filter = (\<lambda>href. href \<noteq> [] \<and>
              (startswith href ''/'' \<or> startswith href ''https://www.foxnews.com'')),
           max_items = DEFAULT_MAX_ITEMS \<rparr>"

definition cbs :: config where
  "cbs = \<lparr> url = ''https://www.cbsnews.com'',
           headline_selector = ''h4.item__hed'',
           link_selector = ''a.item__anchor, a[href*=\"/news/\"], a[href*=\"/politics/\"], a[href*=\"/world/\"]'',
           base_url = ''https://www.cbsnews.com'',
           link_filter = (\<lambda>href. href \<noteq> [] \<and>
              (startswith href ''/'' \<or> startswith href ''https://www.cbsnews.com'')),
           max_items = DEFAULT_MAX_ITEMS \<rparr>"

definition wsj :: config where
  "wsj = \<lparr> url = ''https://www.wsj.com'',
           headline_selector = ''   a'',
           link_selector = ''a.e1sf124z12 css-1rznr30-CardLink'',
           base_url = ''https://www.wsj.com'',
           link_filter = (\<lambda>href. href \<noteq> [] \<and>
              (startswith href ''/'' \<or> startswith href ''https://www.wsj.com'')),
           max_items = DEFAULT_MAX_ITEMS \<rparr>"

text \<open>The dictionary in insertion order, which is the order \<open>keys()\<close> lists.\<close>

definition SOURCES_CONFIG :: "(string \<times> config) list" where
  "SOURCES_CONFIG =
     [(''bbc'', bbc), (''cnn'', cnn), (''fox'', fox), (''cbs'', cbs), (''wsj'', wsj)]"

definition keys :: "(string \<times> config) list \<Rightarrow> string list" where
  "keys d = map fst d"

text \<open>
  Lines 83 to 87: normalise the identifier, raise \<open>ValueError\<close> when it is no key of the
  table, otherwise read the entry.
\<close>

definition lookup :: "string \<Rightarrow> exn + config" where
  "lookup source =
     (case map_of SOURCES_CONFIG (lower source) of
        None \<Rightarrow> Inl (ValueError
                 (''Unsupported news source. Try one of: '' @ join '', '' (keys SOURCES_CONFIG)))
      | Some config \<Rightarrow> Inr config)"

text \<open>
  Line 88, \<open>max_items = max_items or config.get('max_items', 15)\<close>. The override is
  \<open>None\<close> or an integer; \<open>or\<close> keeps its left operand when that is truthy, and of the
  integers only \<open>0\<close> is falsy.
\<close>

definition effective_max_items :: "int option \<Rightarrow> config \<Rightarrow> int" where
  "effective_max_items override config =
     (case override of
        None \<Rightarrow> max_items config
      | Some n \<Rightarrow> if n \<noteq> 0 then n else max_items config)"

section \<open>The parsed page\<close>

text \<open>
  What the script reads of a page. A node of the tree is a string or a tag with its name,
  attribute dictionary and children. An element returned by \<open>soup.select\<close> is a tag
  together with its chain of ancestors, nearest first, each with its name and attributes:
  that is what \<open>element.name\<close>, \<open>get_text()\<close>, \<open>find_parent('a')\<close> and
  \<open>get('href', '')\<close> look at.
\<close>

datatype page_element =
    NavigableString string
  | Tag string "string \<rightharpoonup> string" "page_element list"

record element =
  name :: string
  attrs :: "string \<rightharpoonup> string"
  contents :: "page_element list"
  parents :: "(string \<times> (string \<rightharpoonup> string)) list"

fun all_strings :: "page_element \<Rightarrow> string" where
  "all_strings (NavigableString s) = s"
| "all_strings (Tag n a cs) = concat (map all_strings cs)"

definition get_text :: "element \<Rightarrow> string" where
  "get_text el = concat (map all_strings (contents el))"

fun find_parent :: "string \<Rightarrow> (string \<times> (string \<rightharpoonup> string)) list \<Rightarrow> (string \<rightharpoonup> string) option" where
  "find_parent n [] = None"
| "find_parent n (p # ps) = (if fst p = n then Some (snd p) else find_parent n ps)"

text \<open>
  \<open>link_element = element if element.name == 'a' else element.find_parent('a')\<close>; of
  the link element the script reads the attributes only. A tag is truthy, so
  \<open>not link_element\<close> holds exactly when \<open>find_parent\<close> returned \<open>None\<close>.
\<close>

definition link_element :: "element \<Rightarrow> (string \<rightharpoonup> string) option" where
  "link_element el =
     (if name el = ''a'' then Some (attrs el) else find_parent ''a'' (parents el))"

definition get :: "(string \<rightharpoonup> string) \<Rightarrow> string \<Rightarrow> string \<Rightarrow> string" where
  "get d k dflt = (case d k of None \<Rightarrow> dflt | Some v \<Rightarrow> v)"

section \<open>The libraries\<close>

text \<open>
  The calls into \<open>requests\<close>, \<open>bs4\<close> and \<open>urllib\<close> are parameters of the model, each
  returning its value or the exception it raises. \<open>requests_get\<close> is
  \<open>requests.get(url, headers, timeout)\<close> followed by \<open>raise_for_status()\<close> and gives the
  response text; \<open>soup_select\<close> is \<open>BeautifulSoup(text, 'html.parser').select(selector)\<close> and
  gives the matched elements in document order.
\<close>

record lib =
  requests_get :: "string \<Rightarrow> exn + string"
  soup_select :: "string \<Rightarrow> string \<Rightarrow> exn + element list"
  urljoin :: "string \<Rightarrow> string \<Rightarrow> exn + string"

section \<open>Extraction\<close>

record headline_item =
  headline :: string
  link :: string

record store =
  headlines :: "headline_item list"
  seen_urls :: "string set"

text \<open>
  Lines 107 to 132, the loop over the matched elements. Each \<open>continue\<close> goes on with
  the rest of the list and the same store; \<open>break\<close> returns the store at once.
  \<open>full_url\<close> is \<open>None\<close> when \<open>href\<close> is empty, and \<open>if full_url and ...\<close> asks for a
  non-empty string.
\<close>

fun headlines_loop :: "lib \<Rightarrow> config \<Rightarrow> int \<Rightarrow> element list \<Rightarrow> store \<Rightarrow> exn + store" where
  "headlines_loop L config m [] st = Inr st"
| "headlines_loop L config m (el # els) st =
     (case link_element el of
        None \<Rightarrow> headlines_loop L config m els st
      | Some la \<Rightarrow>
          (let headline_text = strip (get_text el);
               href = get la ''href'' []
           in if headline_text = [] \<or> \<not> link_filter config href
              then headlines_loop L config m els st
              else (case (if href \<noteq> [] then map_sum id Some (urljoin L (base_url config) href)
                          else Inr None) of
                      Inl e \<Rightarrow> Inl e
                    | Inr None \<Rightarrow> headlines_loop L config m els st
                    | Inr (Some full_url) \<Rightarrow>
                        if full_url \<noteq> [] \<and> full_url \<notin> seen_urls st
                        then (let st' = \<lparr> headlines = headlines st @
                                             [\<lparr> headline = headline_text, link = full_url \<rparr>],
                                           seen_urls = insert full_url (seen_urls st) \<rparr>
                              in if m \<le> int (length (headlines st'))
                                 then Inr st'
                                 else headlines_loop L config m els st')
                        else headlines_loop L config m els st)))"

text \<open>
  Lines 103 to 132: \<open>headlines = []\<close>, \<open>seen_urls = set()\<close>, then the loop over
  \<open>soup.select(config['headline_selector'])\<close>. The store the block starts from is an
  argument, so that what an earlier run left behind is visible to the model.
\<close>

definition extraction :: "lib \<Rightarrow> config \<Rightarrow> int \<Rightarrow> string \<Rightarrow> store \<Rightarrow> exn + store" where
  "extraction L config m text st0 =
     (case soup_select L text (headline_selector config) of
        Inl e \<Rightarrow> Inl e
      | Inr els \<Rightarrow> headlines_loop L config m els \<lparr> headlines = [], seen_urls = {} \<rparr>)"

section \<open>Reporting and the whole script\<close>

datatype event = HttpGet string | Print string

fun digits :: "nat \<Rightarrow> nat \<Rightarrow> string" where
  "digits 0 n = []"
| "digits (Suc f) n =
     (if n < 10 then [char_of (48 + n)] else digits f (n div 10) @ [char_of (48 + n mod 10)])"

definition str_nat :: "nat \<Rightarrow> string" where
  "str_nat n = digits (Suc n) n"

text \<open>
  The name \<open>world\<close> is bound nowhere in the module: it is not imported, not assigned and
  not a builtin. Evaluating \<open>world.content.utilities.make_clickable_ansi_link(...)\<close>
  starts with that name and raises \<open>NameError\<close>.
\<close>

definition world_make_clickable_ansi_link :: "string \<Rightarrow> string \<Rightarrow> exn + string" where
  "world_make_clickable_ansi_link target label = Inl (NameError ''name 'world' is not defined'')"

text \<open>
  Lines 136 to 139, the loop over \<open>enumerate(headlines, 1)\<close>; the events printed so far
  are returned with the outcome.
\<close>

fun print_loop :: "nat \<Rightarrow> headline_item list \<Rightarrow> event list \<Rightarrow> event list \<times> (exn + unit)" where
  "print_loop i [] out = (out, Inr ())"
| "print_loop i (item # items) out =
     (let out1 = out @ [Print (str_nat i @ ''. '' @ headline item)]
      in case world_make_clickable_ansi_link (link item) ''Link'' of
           Inl e \<Rightarrow> (out1, Inl e)
         | Inr lnk \<Rightarrow>
             print_loop (Suc i) items
               (out1 @ [Print (lnk @ '': '' @ link item @ [CHR 0x0A])]))"

definition reporter :: "string \<Rightarrow> headline_item list \<Rightarrow> event list \<times> (exn + unit)" where
  "reporter source hs =
     print_loop 1 hs [Print ([CHR 0x0A] @ ''Latest '' @ upper source @ '' News Headlines:'')]"

text \<open>The body of the \<open>try\<close> statement, lines 90 to 139.\<close>

definition try_body :: "lib \<Rightarrow> string \<Rightarrow> config \<Rightarrow> int \<Rightarrow> store \<Rightarrow> event list \<times> (exn + unit)" where
  "try_body L source config m st0 =
     (case requests_get L (url config) of
        Inl e \<Rightarrow> ([HttpGet (url config)], Inl e)
      | Inr text \<Rightarrow>
          (case extraction L config m text st0 of
             Inl e \<Rightarrow> ([HttpGet (url config)], Inl e)
           | Inr st \<Rightarrow>
               (case reporter source (headlines st) of
                  (out, r) \<Rightarrow> (HttpGet (url config) # out, r))))"

text \<open>
  The two \<open>except\<close> clauses, in their order: a \<open>RequestException\<close> first, any other
  exception second.
\<close>

fun handler :: "exn \<Rightarrow> exn" where
  "handler (RequestException m) = RuntimeError (''Failed to fetch news: '' @ m)"
| "handler e = RuntimeError (''An error occurred while scraping: '' @ str e)"

text \<open>
  The script from line 83 to its end, with the two module variables \<open>source\<close> and
  \<open>max_items\<close> as arguments. The result is the sequence of requests and printed lines and
  either the exception that ends the script or normal termination.
\<close>

definition scrape_news :: "lib \<Rightarrow> string \<Rightarrow> int option \<Rightarrow> store \<Rightarrow> event list \<times> (exn + unit)" where
  "scrape_news L source override st0 =
     (case lookup source of
        Inl e \<Rightarrow> ([], Inl e)
      | Inr config \<Rightarrow>
          (case try_body L (lower source) config (effective_max_items override config) st0 of
             (out, Inl e) \<Rightarrow> (out, Inl (handler e))
           | (out, Inr u) \<Rightarrow> (out @ [Print []], Inr ())))"

section \<open>The extraction contract\<close>

text \<open>
  An element is passed over when it has no link element, when its stripped text is empty,
  when the filter rejects its \<open>href\<close>, or when its \<open>href\<close> is empty.
\<close>

definition href_of :: "element \<Rightarrow> string" where
  "href_of el = (case link_element el of None \<Rightarrow> [] | Some la \<Rightarrow> get la ''href'' [])"

definition skipped :: "config \<Rightarrow> element \<Rightarrow> bool" where
  "skipped config el =
     (link_element el = None \<or> strip (get_text el) = [] \<or> \<not> link_filter config (href_of el)
      \<or> href_of el = [])"

text \<open>
  The contract of the extractor as the specification words it, steps 1 to 8: every matched
  node gives at most one candidate item (steps 2 to 5), of the candidates the first one for
  each link is kept in document order (steps 6 and 7), and the list is cut at the cap
  (step 8). A node on which \<open>urljoin\<close> raises gives no candidate. The cut keeps one item
  when the cap is below one, as the loop tests the cap after it has appended.
\<close>

definition candidate :: "lib \<Rightarrow> config \<Rightarrow> element \<Rightarrow> headline_item option" where
  "candidate L config el =
     (if skipped config el then None
      else (case urljoin L (base_url config) (href_of el) of
              Inl e \<Rightarrow> None
            | Inr u \<Rightarrow> if u = [] then None
                       else Some \<lparr> headline = strip (get_text el), link = u \<rparr>))"

fun first_occurrences :: "string set \<Rightarrow> headline_item list \<Rightarrow> headline_item list" where
  "first_occurrences seen [] = []"
| "first_occurrences seen (x # xs) =
     (if link x \<in> seen then first_occurrences seen xs
      else x # first_occurrences (insert (link x) seen) xs)"

definition spec_extract :: "lib \<Rightarrow> config \<Rightarrow> int \<Rightarrow> element list \<Rightarrow> headline_item list" where
  "spec_extract L config m els =
     take (nat (max 1 m)) (first_occurrences {} (List.map_filter (candidate L config) els))"

section \<open>Example pages\<close>

text \<open>
  A headline link as the scenario of the specification has it,
  \<open><h1 class="title"><a href=...>...</a></h1>\<close>, a heading outside any link,
  \<open><div><h3>...</h3></div>\<close>, and a library whose page holds the given
  elements and whose \<open>urljoin\<close> appends the reference to the base, which is what
  \<open>urllib\<close> answers for a base without path and a reference that starts with a slash.
\<close>

definition example_anchor :: "string \<Rightarrow> string \<Rightarrow> element" where
  "example_anchor href txt =
     \<lparr> name = ''a'', attrs = [''href'' \<mapsto> href], contents = [NavigableString txt],
       parents = [(''h1'', [''class'' \<mapsto> ''title'']), (''body'', Map.empty), (''html'', Map.empty)] \<rparr>"

definition example_plain :: "string \<Rightarrow> element" where
  "example_plain txt =
     \<lparr> name = ''h3'', attrs = Map.empty, contents = [NavigableString txt],
       parents = [(''div'', Map.empty), (''body'', Map.empty), (''html'', Map.empty)] \<rparr>"

definition example_lib :: "element list \<Rightarrow> lib" where
  "example_lib els =
     \<lparr> requests_get = (\<lambda>u. Inr ''<html></html>''),
       soup_select = (\<lambda>text selector. Inr els),
       urljoin = (\<lambda>base ref. Inr (base @ ref)) \<rparr>"

definition example_rule :: config where
  "example_rule =
     \<lparr> url = ''https://example.com'', headline_selector = ''h1.title a'', link_selector = [],
       base_url = ''https://example.com'', link_filter = (\<lambda>href. startswith href ''/''),
       max_items = 2 \<rparr>"

definition empty_store :: store where
  "empty_store = \<lparr> headlines = [], seen_urls = {} \<rparr>"

text \<open>
  The page of the scenario with the store it extracts to, and a page with one headline
  for the \<open>bbc\<close> entry with its store.
\<close>

definition example_page :: "element list" where
  "example_page =
     [example_anchor ''/a'' ''First'', example_anchor ''/b'' ''Second'',
      example_anchor ''/a'' ''First'']"

definition example_result :: store where
  "example_result =
     \<lparr> headlines = [\<lparr> headline = ''First'', link = ''https://example.com/a'' \<rparr>,
                    \<lparr> headline = ''Second'', link = ''https://example.com/b'' \<rparr>],
       seen_urls = {''https://example.com/a'', ''https://example.com/b''} \<rparr>"

definition bbc_page :: "element list" where
  "bbc_page = [example_anchor ''/news/x'' ''Hello'']"

definition bbc_result :: store where
  "bbc_result =
     \<lparr> headlines = [\<lparr> headline = ''Hello'', link = ''https://www.bbc.com/news/x'' \<rparr>],
       seen_urls = {''https://www.bbc.com/news/x''} \<rparr>"

section \<open>Source lookup and the item cap\<close>

lemma lower_BBC: "lower ''BBC'' = ''bbc''"
  by code_simp

lemma lower_NYT: "lower ''NYT'' = ''nyt''"
  by code_simp

lemma keys_SOURCES_CONFIG:
  "keys SOURCES_CONFIG = [''bbc'', ''cnn'', ''fox'', ''cbs'', ''wsj'']"
  by (simp add: keys_def SOURCES_CONFIG_def)

lemma unsupported_message:
  "''Unsupported news source. Try one of: '' @ join '', '' (keys SOURCES_CONFIG) =
   ''Unsupported news source. Try one of: bbc, cnn, fox, cbs, wsj''"
  by (simp add: keys_SOURCES_CONFIG)

lemma message_lists_keys:
  "\<forall>k \<in> set (keys SOURCES_CONFIG).
     sublist k ''Unsupported news source. Try one of: bbc, cnn, fox, cbs, wsj''"
  unfolding keys_SOURCES_CONFIG by code_simp

text \<open>
  C1, as the code has it: the cap is the rule's own \<open>max_items\<close> when the override is
  absent or zero, and every other integer override, a negative one included, is taken as
  the cap.
\<close>

theorem effective_max_items_override:
  "effective_max_items None config = max_items config \<and>
   effective_max_items (Some n) config = (if n = 0 then max_items config else n)"
  by (simp add: effective_max_items_def)

theorem effective_max_items_override_witness:
  "effective_max_items None bbc = 10 \<and> effective_max_items (Some 0) bbc = 10 \<and>
   effective_max_items (Some 3) bbc = 3 \<and> effective_max_items (Some (- 1)) bbc = - 1"
  using effective_max_items_override [of bbc 0] effective_max_items_override [of bbc 3]
    effective_max_items_override [of bbc "- 1"]
  by (simp add: bbc_def DEFAULT_MAX_ITEMS_def)

text \<open>
  C1 as stated fails for a negative override: \<open>-1 or 10\<close> is \<open>-1\<close>, not the rule's
  \<open>max_items\<close>.
\<close>

theorem negative_override_honoured:
  "effective_max_items (Some (- 1)) bbc \<noteq> max_items bbc"
  by (simp add: effective_max_items_def bbc_def DEFAULT_MAX_ITEMS_def)

text \<open>
  C3: an identifier whose lower-case form is a key of the table gives the entry stored
  under that key; any other identifier ends the script with \<open>ValueError\<close> before any
  request is made, and the message names every key of the table.
\<close>

theorem lookup_supported_or_error:
  "(map_of SOURCES_CONFIG (lower source) = Some config \<longrightarrow> lookup source = Inr config) \<and>
   (lower source \<in> set (keys SOURCES_CONFIG) \<longrightarrow>
      (\<exists>config. lookup source = Inr config \<and> (lower source, config) \<in> set SOURCES_CONFIG)) \<and>
   (lower source \<notin> set (keys SOURCES_CONFIG) \<longrightarrow>
      lookup source =
        Inl (ValueError ''Unsupported news source. Try one of: bbc, cnn, fox, cbs, wsj'') \<and>
      scrape_news L source override st0 =
        ([], Inl (ValueError ''Unsupported news source. Try one of: bbc, cnn, fox, cbs, wsj'')) \<and>
      (\<forall>k \<in> set (keys SOURCES_CONFIG).
         sublist k ''Unsupported news source. Try one of: bbc, cnn, fox, cbs, wsj''))"
proof (intro conjI impI)
  assume "map_of SOURCES_CONFIG (lower source) = Some config"
  then show "lookup source = Inr config"
    by (simp only: lookup_def option.case)
next
  assume "lower source \<in> set (keys SOURCES_CONFIG)"
  then have "lower source \<in> fst ` set SOURCES_CONFIG"
    by (simp only: keys_def set_map)
  then have "map_of SOURCES_CONFIG (lower source) \<noteq> None"
    by (simp only: map_of_eq_None_iff not_not)
  then obtain config where c: "map_of SOURCES_CONFIG (lower source) = Some config"
    by (auto simp only: not_None_eq)
  have m: "(lower source, config) \<in> set SOURCES_CONFIG"
    using c by (rule map_of_SomeD)
  have "lookup source = Inr config"
    using c by (simp only: lookup_def option.case)
  with m show "\<exists>config. lookup source = Inr config \<and> (lower source, config) \<in> set SOURCES_CONFIG"
    by (intro exI conjI)
next
  assume no: "lower source \<notin> set (keys SOURCES_CONFIG)"
  then have "lower source \<notin> fst ` set SOURCES_CONFIG"
    unfolding keys_def set_map .
  then have none: "map_of SOURCES_CONFIG (lower source) = None"
    by (rule map_of_eq_None_iff [THEN iffD2])
  show l: "lookup source =
      Inl (ValueError ''Unsupported news source. Try one of: bbc, cnn, fox, cbs, wsj'')"
    using none by (simp only: lookup_def option.case unsupported_message)
  show "scrape_news L source override st0 =
      ([], Inl (ValueError ''Unsupported news source. Try one of: bbc, cnn, fox, cbs, wsj''))"
    by (simp only: scrape_news_def l sum.case)
  show "\<forall>k \<in> set (keys SOURCES_CONFIG).
      sublist k ''Unsupported news source. Try one of: bbc, cnn, fox, cbs, wsj''"
    by (rule message_lists_keys)
qed

theorem lookup_supported_or_error_witness:
  "lookup ''BBC'' = Inr bbc \<and>
   scrape_news (example_lib []) ''NYT'' None empty_store =
     ([], Inl (ValueError ''Unsupported news source. Try one of: bbc, cnn, fox, cbs, wsj''))"
proof -
  have a: "map_of SOURCES_CONFIG (lower ''BBC'') = Some bbc"
    unfolding lower_BBC SOURCES_CONFIG_def by simp
  have b: "lower ''NYT'' \<notin> set (keys SOURCES_CONFIG)"
    unfolding lower_NYT keys_SOURCES_CONFIG by simp
  have 1: "lookup ''BBC'' = Inr bbc"
    using lookup_supported_or_error [of "''BBC''" bbc, THEN conjunct1] a by (rule mp)
  have 2: "scrape_news (example_lib []) ''NYT'' None empty_store =
     ([], Inl (ValueError ''Unsupported news source. Try one of: bbc, cnn, fox, cbs, wsj''))"
    using lookup_supported_or_error [of "''NYT''" bbc "example_lib []" None empty_store,
        THEN conjunct2, THEN conjunct2, THEN mp, OF b]
    by (rule conjunct2 [THEN conjunct1])
  from 1 2 show ?thesis by (rule conjI)
qed

section \<open>The extraction loop\<close>

lemma loop_step:
  "headlines_loop L config m (el # els) st =
     (if skipped config el then headlines_loop L config m els st
      else (case urljoin L (base_url config) (href_of el) of
              Inl e \<Rightarrow> Inl e
            | Inr u \<Rightarrow>
                if u \<noteq> [] \<and> u \<notin> seen_urls st
                then (if m \<le> int (length (headlines st)) + 1
                      then Inr \<lparr> headlines = headlines st @
                                   [\<lparr> headline = strip (get_text el), link = u \<rparr>],
                                 seen_urls = insert u (seen_urls st) \<rparr>
                      else headlines_loop L config m els
                             \<lparr> headlines = headlines st @
                                   [\<lparr> headline = strip (get_text el), link = u \<rparr>],
                               seen_urls = insert u (seen_urls st) \<rparr>)
                else headlines_loop L config m els st))"
  by (simp add: skipped_def href_of_def Let_def split: option.split sum.split)

lemma loop_skip_head:
  "skipped config el \<Longrightarrow>
   headlines_loop L config m (el # els) st = headlines_loop L config m els st"
  by (simp only: loop_step if_True)

lemma loop_skip_anywhere:
  "skipped config el \<Longrightarrow>
   headlines_loop L config m (xs @ el # ys) st = headlines_loop L config m (xs @ ys) st"
proof (induction xs arbitrary: st)
  case Nil
  then show ?case by (simp only: append_Nil loop_skip_head)
next
  case (Cons x xs)
  have IH: "\<And>st. headlines_loop L config m (xs @ el # ys) st =
                 headlines_loop L config m (xs @ ys) st"
    using Cons by blast
  show ?case by (simp only: append_Cons loop_step IH)
qed

lemma loop_refines:
  "headlines_loop L config m els st0 = Inr st \<Longrightarrow>
   int (length (headlines st0)) + int n = max 1 m \<Longrightarrow> 1 \<le> n \<Longrightarrow>
   headlines st = headlines st0 @
       take n (first_occurrences (seen_urls st0) (List.map_filter (candidate L config) els)) \<and>
   seen_urls st = seen_urls st0 \<union>
       link ` set (take n (first_occurrences (seen_urls st0)
                             (List.map_filter (candidate L config) els)))"
proof (induction els arbitrary: st0 n)
  case Nil
  then show ?case by (simp add: map_filter_simps)
next
  case (Cons el els)
  show ?case
  proof (cases "skipped config el")
    case True
    then have c: "candidate L config el = None" by (simp add: candidate_def)
    from Cons.prems(1) True have "headlines_loop L config m els st0 = Inr st"
      by (simp only: loop_step if_True)
    from Cons.IH [OF this Cons.prems(2,3)] show ?thesis
      by (simp add: map_filter_simps c)
  next
    case False
    show ?thesis
    proof (cases "urljoin L (base_url config) (href_of el)")
      case (Inl e)
      with Cons.prems(1) False show ?thesis by (simp add: loop_step del: headlines_loop.simps)
    next
      case (Inr u)
      let ?item = "\<lparr> headline = strip (get_text el), link = u \<rparr>"
      let ?st' = "\<lparr> headlines = headlines st0 @ [?item], seen_urls = insert u (seen_urls st0) \<rparr>"
      show ?thesis
      proof (cases "u = []")
        case True
        then have c: "candidate L config el = None" using False Inr by (simp add: candidate_def)
        from Cons.prems(1) False Inr True have "headlines_loop L config m els st0 = Inr st"
          by (simp add: loop_step del: headlines_loop.simps)
        from Cons.IH [OF this Cons.prems(2,3)] show ?thesis
          by (simp add: map_filter_simps c)
      next
        case nonempty: False
        then have c: "candidate L config el = Some ?item"
          using False Inr by (simp add: candidate_def)
        show ?thesis
        proof (cases "u \<in> seen_urls st0")
          case True
          from Cons.prems(1) False Inr True have "headlines_loop L config m els st0 = Inr st"
            by (simp add: loop_step del: headlines_loop.simps)
          from Cons.IH [OF this Cons.prems(2,3)] show ?thesis
            using True by (simp add: map_filter_simps c)
        next
          case fresh: False
          show ?thesis
          proof (cases "m \<le> int (length (headlines st0)) + 1")
            case True
            with Cons.prems(1) False Inr nonempty fresh have s: "st = ?st'"
              by (simp add: loop_step del: headlines_loop.simps)
            from True Cons.prems(2,3) have "n = 1" by linarith
            then show ?thesis using s fresh by (simp add: map_filter_simps c)
          next
            case more: False
            with Cons.prems(1) False Inr nonempty fresh
            have r: "headlines_loop L config m els ?st' = Inr st"
              by (simp add: loop_step del: headlines_loop.simps)
            from more Cons.prems(2,3) have n2: "2 \<le> n" by linarith
            then obtain k where k: "n = Suc k" "1 \<le> k"
              by (cases n) auto
            have inv: "int (length (headlines ?st')) + int k = max 1 m"
              using Cons.prems(2) k by simp
            from Cons.IH [OF r inv k(2)] show ?thesis
              using fresh k by (simp add: map_filter_simps c)
          qed
        qed
      qed
    qed
  qed
qed

lemma loop_stops:
  "headlines_loop L config m xs st0 = Inr st \<Longrightarrow> headlines st \<noteq> headlines st0 \<Longrightarrow>
   m \<le> int (length (headlines st)) \<Longrightarrow> headlines_loop L config m (xs @ ys) st0 = Inr st"
proof (induction xs arbitrary: st0)
  case Nil
  then show ?case by simp
next
  case (Cons el els)
  show ?case
  proof (cases "skipped config el")
    case True
    with Cons.prems(1) have "headlines_loop L config m els st0 = Inr st"
      by (simp only: loop_step if_True)
    from Cons.IH [OF this Cons.prems(2,3)] True show ?thesis
      by (simp only: append_Cons loop_step if_True)
  next
    case False
    show ?thesis
    proof (cases "urljoin L (base_url config) (href_of el)")
      case (Inl e)
      with Cons.prems(1) False show ?thesis by (simp add: loop_step del: headlines_loop.simps)
    next
      case (Inr u)
      let ?st' = "\<lparr> headlines = headlines st0 @ [\<lparr> headline = strip (get_text el), link = u \<rparr>],
                    seen_urls = insert u (seen_urls st0) \<rparr>"
      show ?thesis
      proof (cases "u \<noteq> [] \<and> u \<notin> seen_urls st0")
        case False
        with Cons.prems(1) \<open>\<not> skipped config el\<close> Inr
        have "headlines_loop L config m els st0 = Inr st"
          by (auto simp add: loop_step simp del: headlines_loop.simps)
        from Cons.IH [OF this Cons.prems(2,3)] False \<open>\<not> skipped config el\<close> Inr show ?thesis
          by (auto simp add: loop_step simp del: headlines_loop.simps)
      next
        case True
        show ?thesis
        proof (cases "m \<le> int (length (headlines st0)) + 1")
          case brk: True
          with Cons.prems(1) False Inr True show ?thesis
            by (simp add: loop_step del: headlines_loop.simps)
        next
          case more: False
          with Cons.prems(1) False Inr True
          have r: "headlines_loop L config m els ?st' = Inr st"
            by (simp add: loop_step del: headlines_loop.simps)
          have "length (headlines st) \<noteq> length (headlines ?st')"
            using more Cons.prems(3) by simp
          then have d: "headlines st \<noteq> headlines ?st'" by auto
          from Cons.IH [OF r d Cons.prems(3)] more False Inr True show ?thesis
            by (simp add: loop_step del: headlines_loop.simps)
        qed
      qed
    qed
  qed
qed

section \<open>First occurrences and stripped strings\<close>

lemma first_occurrences_fresh:
  "x \<in> set (first_occurrences S xs) \<Longrightarrow> link x \<notin> S"
  by (induction xs arbitrary: S) (auto split: if_splits)

lemma first_occurrences_distinct:
  "distinct (map link (first_occurrences S xs))"
proof (induction xs arbitrary: S)
  case Nil
  show ?case by simp
next
  case (Cons x xs)
  have "link x \<notin> link ` set (first_occurrences (insert (link x) S) xs)"
  proof
    assume "link x \<in> link ` set (first_occurrences (insert (link x) S) xs)"
    then obtain y where y: "y \<in> set (first_occurrences (insert (link x) S) xs)" "link y = link x"
      by auto
    from first_occurrences_fresh [OF y(1)] y(2) show False by simp
  qed
  with Cons show ?case by simp
qed

lemma first_occurrences_subseq:
  "subseq (first_occurrences S xs) xs"
  by (induction xs arbitrary: S) auto

lemma first_occurrences_subset:
  "set (first_occurrences S xs) \<subseteq> set xs"
  by (induction xs arbitrary: S) auto

lemma first_occurrences_first:
  "x \<in> set (first_occurrences S xs) \<Longrightarrow>
   \<exists>pre post. xs = pre @ x # post \<and> link x \<notin> link ` set pre"
proof (induction xs arbitrary: S)
  case Nil
  then show ?case by simp
next
  case (Cons y ys)
  show ?case
  proof (cases "x = y \<and> link y \<notin> S")
    case True
    then have "y # ys = [] @ x # ys \<and> link x \<notin> link ` set []" by simp
    then show ?thesis by blast
  next
    case False
    with Cons.prems have "x \<in> set (first_occurrences (if link y \<in> S then S else insert (link y) S) ys)"
      by (auto split: if_splits)
    from Cons.IH [OF this] obtain pre post where p: "ys = pre @ x # post" "link x \<notin> link ` set pre"
      by blast
    have "link x \<noteq> link y"
    proof (cases "link y \<in> S")
      case True
      with Cons.prems have "x \<in> set (first_occurrences S ys)" by simp
      then have "link x \<notin> S" by (rule first_occurrences_fresh)
      with True show ?thesis by auto
    next
      case nin: False
      with Cons.prems False have "x \<in> set (first_occurrences (insert (link y) S) ys)" by auto
      then have "link x \<notin> insert (link y) S" by (rule first_occurrences_fresh)
      then show ?thesis by simp
    qed
    with p have "y # ys = (y # pre) @ x # post \<and> link x \<notin> link ` set (y # pre)" by simp
    then show ?thesis by blast
  qed
qed

lemma map_filter_mem:
  "y \<in> set (List.map_filter f xs) \<Longrightarrow> \<exists>x \<in> set xs. f x = Some y"
  by (auto simp: List.map_filter_def)

lemma subseq_trans_take:
  "subseq ys zs \<Longrightarrow> subseq (take n ys) zs"
proof -
  assume a: "subseq ys zs"
  have "subseq (take n ys) ys"
    using take_is_prefix by (rule prefix_imp_subseq)
  from this a show ?thesis by (rule subseq_order.order_trans)
qed

lemma strip_trimmed:
  "strip s \<noteq> [] \<Longrightarrow> \<not> isspace (hd (strip s)) \<and> \<not> isspace (last (strip s))"
proof -
  assume ne: "strip s \<noteq> []"
  define t where "t = dropWhile isspace s"
  define u where "u = dropWhile isspace (rev t)"
  have s: "strip s = rev u" by (simp add: strip_def t_def u_def)
  with ne have une: "u \<noteq> []" by simp
  then have tne: "t \<noteq> []" by (auto simp: u_def)
  have "\<not> isspace (hd u)" using une unfolding u_def by (rule hd_dropWhile)
  then have l: "\<not> isspace (last (strip s))" using une by (simp add: s last_rev)
  obtain v where v: "rev t = v @ u"
    unfolding u_def by (metis takeWhile_dropWhile_id)
  then have "last u = last (rev t)" using une by simp
  also have "\<dots> = hd t" using tne by (simp add: last_rev)
  finally have "hd (strip s) = hd t" using une by (simp add: s hd_rev)
  moreover have "\<not> isspace (hd t)" using tne unfolding t_def by (rule hd_dropWhile)
  ultimately show ?thesis using l by simp
qed

lemma dropWhile_id: "xs \<noteq> [] \<Longrightarrow> \<not> P (hd xs) \<Longrightarrow> dropWhile P xs = xs"
  by (cases xs) auto

lemma strip_idem: "strip (strip s) = strip s"
proof (cases "strip s = []")
  case True
  have "strip [] = []" by (simp add: strip_def)
  with True show ?thesis by simp
next
  case False
  from strip_trimmed [OF False] have h: "\<not> isspace (hd (strip s))" and l: "\<not> isspace (last (strip s))"
    by simp_all
  have 1: "dropWhile isspace (strip s) = strip s" using False h by (rule dropWhile_id)
  have "rev (strip s) \<noteq> []" using False by simp
  moreover have "\<not> isspace (hd (rev (strip s)))" using l False by (simp add: hd_rev)
  ultimately have 2: "dropWhile isspace (rev (strip s)) = rev (strip s)" by (rule dropWhile_id)
  show ?thesis
    by (simp only: strip_def [of "strip s"] 1 2 rev_rev_ident)
qed

lemma candidate_Some:
  "candidate L config el = Some it \<Longrightarrow>
   \<not> skipped config el \<and> headline it = strip (get_text el) \<and> headline it \<noteq> [] \<and> link it \<noteq> [] \<and>
   urljoin L (base_url config) (href_of el) = Inr (link it)"
  by (auto simp: candidate_def skipped_def split: if_splits sum.splits)

lemma find_parent_None: "find_parent n ps = None \<longleftrightarrow> (\<forall>p \<in> set ps. fst p \<noteq> n)"
  by (induction ps) auto

section \<open>The extraction block against its contract\<close>

lemma extraction_select:
  "soup_select L text (headline_selector config) = Inr els \<Longrightarrow>
   extraction L config m text st0 =
     headlines_loop L config m els \<lparr> headlines = [], seen_urls = {} \<rparr>"
  by (simp add: extraction_def)

lemma extraction_refines:
  assumes "soup_select L text (headline_selector config) = Inr els"
    and "extraction L config m text st0 = Inr st"
  shows "headlines st = spec_extract L config m els"
    and "seen_urls st = link ` set (headlines st)"
proof -
  have r: "headlines_loop L config m els \<lparr> headlines = [], seen_urls = {} \<rparr> = Inr st"
    using assms by (simp only: extraction_select)
  have i: "int (length (headlines \<lparr> headlines = [], seen_urls = {} \<rparr>)) + int (nat (max 1 m)) = max 1 m"
    by simp
  have n: "1 \<le> nat (max 1 m)" by simp
  from loop_refines [OF r i n] show "headlines st = spec_extract L config m els"
    by (simp add: spec_extract_def)
  from loop_refines [OF r i n] show "seen_urls st = link ` set (headlines st)"
    by simp
qed

lemma spec_extract_mem:
  "it \<in> set (spec_extract L config m els) \<Longrightarrow> \<exists>el \<in> set els. candidate L config el = Some it"
proof -
  assume "it \<in> set (spec_extract L config m els)"
  then have "it \<in> set (first_occurrences {} (List.map_filter (candidate L config) els))"
    unfolding spec_extract_def by (rule in_set_takeD)
  then have "it \<in> set (List.map_filter (candidate L config) els)"
    using first_occurrences_subset by blast
  then show ?thesis by (rule map_filter_mem)
qed

text \<open>
  The block ends with a store whenever \<open>soup.select\<close> and \<open>urljoin\<close> raise nothing.
\<close>

lemma loop_returns:
  "(\<And>ref. \<exists>u. urljoin L (base_url config) ref = Inr u) \<Longrightarrow>
   \<exists>st'. headlines_loop L config m els st = Inr st'"
proof (induction els arbitrary: st)
  case Nil
  show ?case by simp
next
  case (Cons el els)
  obtain u where u: "urljoin L (base_url config) (href_of el) = Inr u"
    using Cons.prems by blast
  have IH: "\<And>st. \<exists>st'. headlines_loop L config m els st = Inr st'"
    using Cons.IH Cons.prems by blast
  show ?case
    by (simp only: loop_step u sum.case) (simp add: IH del: headlines_loop.simps)
qed

lemma extraction_returns:
  "(\<And>ref. \<exists>u. urljoin L (base_url config) ref = Inr u) \<Longrightarrow>
   soup_select L text (headline_selector config) = Inr els \<Longrightarrow>
   \<exists>st. extraction L config m text st0 = Inr st"
  by (simp only: extraction_select loop_returns)

section \<open>The example pages, evaluated\<close>

lemma example_anchor_reads:
  "link_element (example_anchor h t) = Some [''href'' \<mapsto> h]"
  "get_text (example_anchor h t) = t"
  "href_of (example_anchor h t) = h"
  by (simp_all add: example_anchor_def link_element_def get_text_def href_of_def get_def)

lemma example_plain_reads:
  "name (example_plain t) \<noteq> ''a''"
  "\<forall>p \<in> set (parents (example_plain t)). fst p \<noteq> ''a''"
  by (simp_all add: example_plain_def)

lemma example_lib_reads:
  "requests_get (example_lib els) u = Inr ''<html></html>''"
  "soup_select (example_lib els) text selector = Inr els"
  "urljoin (example_lib els) base ref = Inr (base @ ref)"
  by (simp_all add: example_lib_def)

lemma strip_examples:
  "strip ''First'' = ''First''"
  "strip ''Second'' = ''Second''"
  "strip ''Hello'' = ''Hello''"
  "strip ''   '' = []"
  by code_simp+

lemma example_rule_reads:
  "headline_selector example_rule = ''h1.title a''"
  "base_url example_rule = ''https://example.com''"
  "link_filter example_rule ''/a''"
  "link_filter example_rule ''/b''"
  "\<not> link_filter example_rule ''#top''"
  "effective_max_items None example_rule = 2"
  by (simp_all add: example_rule_def startswith_def effective_max_items_def)

lemma bbc_reads:
  "base_url bbc = ''https://www.bbc.com''"
  "link_filter bbc ''/news/x''"
  "effective_max_items None bbc = 10"
  "effective_max_items (Some (- 1)) bbc = - 1"
  by (simp_all add: bbc_def startswith_def effective_max_items_def DEFAULT_MAX_ITEMS_def)

lemma not_skipped_examples:
  "\<not> skipped example_rule (example_anchor ''/a'' ''First'')"
  "\<not> skipped example_rule (example_anchor ''/b'' ''Second'')"
  "\<not> skipped bbc (example_anchor ''/news/x'' ''Hello'')"
  by (simp_all add: skipped_def example_anchor_reads strip_examples example_rule_reads bbc_reads)

lemma example_urljoin:
  "urljoin (example_lib els) ''https://example.com'' ''/a'' = Inr ''https://example.com/a''"
  "urljoin (example_lib els) ''https://example.com'' ''/b'' = Inr ''https://example.com/b''"
  "urljoin (example_lib els) ''https://www.bbc.com'' ''/news/x'' = Inr ''https://www.bbc.com/news/x''"
  by (simp_all add: example_lib_reads)

lemma scenario_loop:
  assumes "urljoin L ''https://example.com'' ''/a'' = Inr ''https://example.com/a''"
    and "urljoin L ''https://example.com'' ''/b'' = Inr ''https://example.com/b''"
  shows "headlines_loop L example_rule 2
           (example_anchor ''/a'' ''First'' # example_anchor ''/b'' ''Second'' # rest)
           \<lparr> headlines = [], seen_urls = {} \<rparr> =
         Inr \<lparr> headlines = [\<lparr> headline = ''First'', link = ''https://example.com/a'' \<rparr>,
                            \<lparr> headline = ''Second'', link = ''https://example.com/b'' \<rparr>],
               seen_urls = {''https://example.com/a'', ''https://example.com/b''} \<rparr>"
  using assms
  by (simp add: loop_step not_skipped_examples example_anchor_reads strip_examples
        example_rule_reads insert_commute del: headlines_loop.simps)

lemma bbc_loop:
  assumes "urljoin L ''https://www.bbc.com'' ''/news/x'' = Inr ''https://www.bbc.com/news/x''"
    and "m = 10 \<or> m = - 1"
  shows "headlines_loop L bbc m [example_anchor ''/news/x'' ''Hello'']
           \<lparr> headlines = [], seen_urls = {} \<rparr> =
         Inr \<lparr> headlines = [\<lparr> headline = ''Hello'', link = ''https://www.bbc.com/news/x'' \<rparr>],
               seen_urls = {''https://www.bbc.com/news/x''} \<rparr>"
  using assms
  by (auto simp add: loop_step not_skipped_examples example_anchor_reads strip_examples
        bbc_reads simp del: headlines_loop.simps(2))

lemma scenario_extraction:
  assumes "soup_select L text ''h1.title a'' =
             Inr [example_anchor ''/a'' ''First'', example_anchor ''/b'' ''Second'',
                  example_anchor ''/a'' ''First'']"
    and "urljoin L ''https://example.com'' ''/a'' = Inr ''https://example.com/a''"
    and "urljoin L ''https://example.com'' ''/b'' = Inr ''https://example.com/b''"
  shows "extraction L example_rule (effective_max_items None example_rule) text st0 =
         Inr \<lparr> headlines = [\<lparr> headline = ''First'', link = ''https://example.com/a'' \<rparr>,
                            \<lparr> headline = ''Second'', link = ''https://example.com/b'' \<rparr>],
               seen_urls = {''https://example.com/a'', ''https://example.com/b''} \<rparr>"
proof -
  have "soup_select L text (headline_selector example_rule) =
             Inr [example_anchor ''/a'' ''First'', example_anchor ''/b'' ''Second'',
                  example_anchor ''/a'' ''First'']"
    using assms(1) by (simp only: example_rule_reads)
  then show ?thesis
    by (simp only: extraction_select example_rule_reads scenario_loop [OF assms(2,3)])
qed

lemma lookup_BBC: "lookup ''BBC'' = Inr bbc"
  unfolding lookup_def lower_BBC SOURCES_CONFIG_def by simp

lemma example_extraction:
  "extraction (example_lib example_page) example_rule 2 text st0 = Inr example_result"
proof -
  have "extraction (example_lib example_page) example_rule
          (effective_max_items None example_rule) text st0 = Inr example_result"
    unfolding example_result_def
    by (rule scenario_extraction [OF _ example_urljoin(1) example_urljoin(2)])
       (simp only: example_lib_reads(2) example_page_def)
  then show ?thesis by (simp only: example_rule_reads)
qed

lemma example_prefix_loop:
  "headlines_loop (example_lib els) example_rule 2
     [example_anchor ''/a'' ''First'', example_anchor ''/b'' ''Second'']
     \<lparr> headlines = [], seen_urls = {} \<rparr> = Inr example_result"
  unfolding example_result_def
  by (rule scenario_loop [OF example_urljoin(1) example_urljoin(2)])

lemma bbc_extraction:
  "m = 10 \<or> m = - 1 \<Longrightarrow>
   extraction (example_lib bbc_page) bbc m text st0 = Inr bbc_result"
proof -
  assume m: "m = 10 \<or> m = - 1"
  have "soup_select (example_lib bbc_page) text (headline_selector bbc) = Inr bbc_page"
    by (rule example_lib_reads)
  then have "extraction (example_lib bbc_page) bbc m text st0 =
      headlines_loop (example_lib bbc_page) bbc m bbc_page \<lparr> headlines = [], seen_urls = {} \<rparr>"
    by (rule extraction_select)
  also have "\<dots> = Inr bbc_result"
    unfolding bbc_page_def bbc_result_def
    using example_urljoin(3) m by (rule bbc_loop)
  finally show ?thesis .
qed

lemma empty_extraction:
  "extraction (example_lib []) config m text st0 = Inr \<lparr> headlines = [], seen_urls = {} \<rparr>"
  by (simp add: extraction_def example_lib_reads)

lemma example_result_reads:
  "headlines example_result =
     [\<lparr> headline = ''First'', link = ''https://example.com/a'' \<rparr>,
      \<lparr> headline = ''Second'', link = ''https://example.com/b'' \<rparr>]"
  "headlines example_result \<noteq> []"
  "int (length (headlines example_result)) = 2"
  by (simp_all add: example_result_def)

lemma bbc_result_reads:
  "headlines bbc_result = [\<lparr> headline = ''Hello'', link = ''https://www.bbc.com/news/x'' \<rparr>]"
  "headlines bbc_result \<noteq> []"
  "int (length (headlines bbc_result)) = 1"
  by (simp_all add: bbc_result_def)

lemma example_select:
  "soup_select (example_lib example_page) [] (headline_selector example_rule) = Inr example_page"
  by (rule example_lib_reads)

lemma example_item_mem:
  "\<lparr> headline = ''First'', link = ''https://example.com/a'' \<rparr> \<in> set (headlines example_result)"
  by (simp add: example_result_def)

section \<open>The reporter\<close>

lemma str_nat_1: "str_nat (Suc 0) = ''1''"
  by code_simp

lemma reporter_Nil:
  "reporter source [] =
     ([Print ([CHR 0x0A] @ ''Latest '' @ upper source @ '' News Headlines:'')], Inr ())"
  by (simp only: reporter_def print_loop.simps)

lemma reporter_Cons:
  "reporter source (item # items) =
     ([Print ([CHR 0x0A] @ ''Latest '' @ upper source @ '' News Headlines:''),
       Print (''1. '' @ headline item)],
      Inl (NameError ''name 'world' is not defined''))"
  by (simp add: reporter_def world_make_clickable_ansi_link_def str_nat_1 Let_def)

lemma try_body_reporter:
  "requests_get L (url config) = Inr text \<Longrightarrow> extraction L config m text st0 = Inr st \<Longrightarrow>
   try_body L source config m st0 =
     (HttpGet (url config) # fst (reporter source (headlines st)),
      snd (reporter source (headlines st)))"
  by (simp add: try_body_def split: prod.split)

lemma handler_NameError:
  "handler (NameError ''name 'world' is not defined'') =
   RuntimeError (''An error occurred while scraping'' @ '': name 'world' is not defined'')"
  by simp

text \<open>
  C2: with at least one extracted item the reporter prints the header and the first
  headline and then raises \<open>NameError\<close> on the name \<open>world\<close>; the second \<open>except\<close>
  clause turns it into a \<open>RuntimeError\<close> whose message starts with
  \<open>An error occurred while scraping\<close>. With no item the reporter and the script end
  without an exception.
\<close>

theorem reporter_name_error:
  "(hs \<noteq> [] \<longrightarrow> snd (reporter source hs) = Inl (NameError ''name 'world' is not defined'')) \<and>
   snd (reporter source []) = Inr () \<and>
   (lookup source = Inr config \<and> requests_get L (url config) = Inr text \<and>
    extraction L config (effective_max_items override config) text st0 = Inr st \<longrightarrow>
      (headlines st \<noteq> [] \<longrightarrow>
         snd (scrape_news L source override st0) =
           Inl (RuntimeError
                  (''An error occurred while scraping'' @ '': name 'world' is not defined''))) \<and>
      (headlines st = [] \<longrightarrow> snd (scrape_news L source override st0) = Inr ()))"
proof (intro conjI impI)
  assume "hs \<noteq> []"
  then obtain item items where "hs = item # items" by (cases hs) auto
  then show "snd (reporter source hs) = Inl (NameError ''name 'world' is not defined'')"
    by (simp only: reporter_Cons snd_conv)
next
  show "snd (reporter source []) = Inr ()"
    by (simp only: reporter_Nil snd_conv)
next
  assume a: "lookup source = Inr config \<and> requests_get L (url config) = Inr text \<and>
    extraction L config (effective_max_items override config) text st0 = Inr st"
  assume "headlines st \<noteq> []"
  then obtain item items where h: "headlines st = item # items" by (cases "headlines st") auto
  have t: "try_body L (lower source) config (effective_max_items override config) st0 =
      (HttpGet (url config) # fst (reporter (lower source) (headlines st)),
       snd (reporter (lower source) (headlines st)))"
    using a by (simp only: try_body_reporter)
  have t': "try_body L (lower source) config (effective_max_items override config) st0 =
      (HttpGet (url config) #
         [Print ([CHR 0x0A] @ ''Latest '' @ upper (lower source) @ '' News Headlines:''),
          Print (''1. '' @ headline item)],
       Inl (NameError ''name 'world' is not defined''))"
    by (simp only: t h reporter_Cons fst_conv snd_conv)
  have s: "scrape_news L source override st0 =
      (case try_body L (lower source) config (effective_max_items override config) st0 of
         (out, Inl e) \<Rightarrow> (out, Inl (handler e))
       | (out, Inr u) \<Rightarrow> (out @ [Print []], Inr ()))"
    using a by (simp only: scrape_news_def sum.case)
  show "snd (scrape_news L source override st0) =
      Inl (RuntimeError (''An error occurred while scraping'' @ '': name 'world' is not defined''))"
    by (simp only: s t' sum.case prod.case snd_conv handler_NameError)
next
  assume a: "lookup source = Inr config \<and> requests_get L (url config) = Inr text \<and>
    extraction L config (effective_max_items override config) text st0 = Inr st"
  assume h: "headlines st = []"
  have t: "try_body L (lower source) config (effective_max_items override config) st0 =
      (HttpGet (url config) # fst (reporter (lower source) (headlines st)),
       snd (reporter (lower source) (headlines st)))"
    using a by (simp only: try_body_reporter)
  have t': "try_body L (lower source) config (effective_max_items override config) st0 =
      (HttpGet (url config) #
         [Print ([CHR 0x0A] @ ''Latest '' @ upper (lower source) @ '' News Headlines:'')],
       Inr ())"
    by (simp only: t h reporter_Nil fst_conv snd_conv)
  have s: "scrape_news L source override st0 =
      (case try_body L (lower source) config (effective_max_items override config) st0 of
         (out, Inl e) \<Rightarrow> (out, Inl (handler e))
       | (out, Inr u) \<Rightarrow> (out @ [Print []], Inr ()))"
    using a by (simp only: scrape_news_def sum.case)
  show "snd (scrape_news L source override st0) = Inr ()"
    by (simp only: s t' sum.case prod.case snd_conv)
qed

theorem reporter_name_error_witness:
  "snd (scrape_news (example_lib bbc_page) ''BBC'' None empty_store) =
     Inl (RuntimeError (''An error occurred while scraping'' @ '': name 'world' is not defined'')) \<and>
   snd (scrape_news (example_lib []) ''BBC'' None empty_store) = Inr ()"
proof -
  have m: "effective_max_items None bbc = 10 \<or> effective_max_items None bbc = - 1"
    by (simp add: bbc_reads)
  have a: "lookup ''BBC'' = Inr bbc \<and>
      requests_get (example_lib bbc_page) (url bbc) = Inr ''<html></html>'' \<and>
      extraction (example_lib bbc_page) bbc (effective_max_items None bbc) ''<html></html>''
        empty_store = Inr bbc_result"
    using lookup_BBC example_lib_reads(1) bbc_extraction [OF m] by (intro conjI)
  have b: "lookup ''BBC'' = Inr bbc \<and>
      requests_get (example_lib []) (url bbc) = Inr ''<html></html>'' \<and>
      extraction (example_lib []) bbc (effective_max_items None bbc) ''<html></html>''
        empty_store = Inr \<lparr> headlines = [], seen_urls = {} \<rparr>"
    using lookup_BBC example_lib_reads(1) empty_extraction by (intro conjI)
  have e: "headlines \<lparr> headlines = [], seen_urls = {} \<rparr> = []" by simp
  have 1: "snd (scrape_news (example_lib bbc_page) ''BBC'' None empty_store) =
     Inl (RuntimeError (''An error occurred while scraping'' @ '': name 'world' is not defined''))"
    using reporter_name_error [THEN conjunct2, THEN conjunct2, THEN mp, OF a, THEN conjunct1,
        THEN mp, OF bbc_result_reads(2)] .
  have 2: "snd (scrape_news (example_lib []) ''BBC'' None empty_store) = Inr ()"
    using reporter_name_error [THEN conjunct2, THEN conjunct2, THEN mp, OF b, THEN conjunct2,
        THEN mp, OF e] .
  from 1 2 show ?thesis by (rule conjI)
qed

section \<open>Properties of the extraction\<close>

text \<open>
  C4: the scenario of the specification. The rule is \<open>example_rule\<close>; the page holds
  the three links \<open>/a\<close> First, \<open>/b\<close> Second, \<open>/a\<close> First in that order; the two
  hypotheses on \<open>urljoin\<close> are what \<open>urllib\<close> answers for these references. The result is
  First with \<open>https://example.com/a\<close>, then Second with \<open>https://example.com/b\<close>.
\<close>

theorem scenario_first_second:
  assumes "soup_select L text ''h1.title a'' =
             Inr [example_anchor ''/a'' ''First'', example_anchor ''/b'' ''Second'',
                  example_anchor ''/a'' ''First'']"
    and "urljoin L ''https://example.com'' ''/a'' = Inr ''https://example.com/a''"
    and "urljoin L ''https://example.com'' ''/b'' = Inr ''https://example.com/b''"
  shows "extraction L example_rule (effective_max_items None example_rule) text st0 =
         Inr \<lparr> headlines = [\<lparr> headline = ''First'', link = ''https://example.com/a'' \<rparr>,
                            \<lparr> headline = ''Second'', link = ''https://example.com/b'' \<rparr>],
               seen_urls = {''https://example.com/a'', ''https://example.com/b''} \<rparr>"
  using assms by (rule scenario_extraction)

theorem scenario_first_second_witness:
  "extraction
     (example_lib [example_anchor ''/a'' ''First'', example_anchor ''/b'' ''Second'',
                   example_anchor ''/a'' ''First''])
     example_rule (effective_max_items None example_rule) [] empty_store =
   Inr \<lparr> headlines = [\<lparr> headline = ''First'', link = ''https://example.com/a'' \<rparr>,
                      \<lparr> headline = ''Second'', link = ''https://example.com/b'' \<rparr>],
         seen_urls = {''https://example.com/a'', ''https://example.com/b''} \<rparr>"
  by (rule scenario_first_second [OF example_lib_reads(2) example_urljoin(1) example_urljoin(2)])

text \<open>
  C5, as the code has it: the result has at most \<open>max 1 m\<close> entries for the cap \<open>m\<close>,
  that is at most \<open>m\<close> whenever the cap is at least one; and once a prefix of the matched
  elements has given a non-empty result of at least \<open>m\<close> entries, the elements after it
  are not looked at, whatever they are.
\<close>

theorem extraction_cap:
  assumes "soup_select L text (headline_selector config) = Inr (xs @ ys)"
  shows "(extraction L config m text st0 = Inr st \<longrightarrow> int (length (headlines st)) \<le> max 1 m) \<and>
         (headlines_loop L config m xs \<lparr> headlines = [], seen_urls = {} \<rparr> = Inr st' \<and>
          headlines st' \<noteq> [] \<and> m \<le> int (length (headlines st')) \<longrightarrow>
            extraction L config m text st0 = Inr st')"
proof (intro conjI impI)
  assume "extraction L config m text st0 = Inr st"
  from extraction_refines(1) [OF assms this]
  have "length (headlines st) \<le> nat (max 1 m)"
    by (simp add: spec_extract_def)
  then show "int (length (headlines st)) \<le> max 1 m" by linarith
next
  assume a: "headlines_loop L config m xs \<lparr> headlines = [], seen_urls = {} \<rparr> = Inr st' \<and>
          headlines st' \<noteq> [] \<and> m \<le> int (length (headlines st'))"
  then have d: "headlines st' \<noteq> headlines \<lparr> headlines = [], seen_urls = {} \<rparr>" by simp
  from a have "headlines_loop L config m (xs @ ys) \<lparr> headlines = [], seen_urls = {} \<rparr> = Inr st'"
    using loop_stops [OF _ d] by blast
  then show "extraction L config m text st0 = Inr st'"
    using assms by (simp only: extraction_select)
qed

theorem extraction_cap_witness:
  "int (length (headlines example_result)) \<le> max 1 2 \<and>
   extraction
     (example_lib ([example_anchor ''/a'' ''First'', example_anchor ''/b'' ''Second''] @
                   [example_anchor ''/a'' ''First'']))
     example_rule 2 [] empty_store = Inr example_result"
proof -
  let ?xs = "[example_anchor ''/a'' ''First'', example_anchor ''/b'' ''Second'']"
  let ?ys = "[example_anchor ''/a'' ''First'']"
  let ?L = "example_lib (?xs @ ?ys)"
  have s: "soup_select ?L [] (headline_selector example_rule) = Inr (?xs @ ?ys)"
    by (rule example_lib_reads)
  have p: "headlines_loop ?L example_rule 2 ?xs \<lparr> headlines = [], seen_urls = {} \<rparr> =
             Inr example_result \<and>
           headlines example_result \<noteq> [] \<and> 2 \<le> int (length (headlines example_result))"
    using example_prefix_loop example_result_reads(2) by (simp add: example_result_reads(3))
  have r: "extraction ?L example_rule 2 [] empty_store = Inr example_result"
    using extraction_cap [OF s, THEN conjunct2, THEN mp, OF p] .
  have "int (length (headlines example_result)) \<le> max 1 2"
    using extraction_cap [OF s, THEN conjunct1, THEN mp, OF r] .
  from this r show ?thesis by (rule conjI)
qed

text \<open>
  C5 as stated fails for a cap below one: with the override \<open>-1\<close> the cap is \<open>-1\<close>,
  the loop appends the first headline before it tests the cap, and the result has one
  entry.
\<close>

theorem negative_cap_exceeded:
  "extraction (example_lib bbc_page) bbc (effective_max_items (Some (- 1)) bbc) [] empty_store =
     Inr bbc_result \<and>
   \<not> int (length (headlines bbc_result)) \<le> effective_max_items (Some (- 1)) bbc"
proof -
  have m: "effective_max_items (Some (- 1)) bbc = 10 \<or> effective_max_items (Some (- 1)) bbc = - 1"
    by (simp add: bbc_reads)
  have "\<not> int (length (headlines bbc_result)) \<le> effective_max_items (Some (- 1)) bbc"
    by (simp add: bbc_reads bbc_result_reads)
  with bbc_extraction [OF m] show ?thesis by (rule conjI)
qed

text \<open>
  C6: the links of the result are pairwise distinct; the result is the contract
  \<open>spec_extract\<close>, the first candidate of each link in document order cut at the cap; it
  is a subsequence of the candidates, and no candidate before an entry has that entry's
  link.
\<close>

theorem extraction_first_occurrence:
  assumes "soup_select L text (headline_selector config) = Inr els"
    and "extraction L config m text st0 = Inr st"
  shows "distinct (map link (headlines st)) \<and>
         headlines st = spec_extract L config m els \<and>
         subseq (headlines st) (List.map_filter (candidate L config) els) \<and>
         (\<forall>it \<in> set (headlines st). \<exists>pre post.
            List.map_filter (candidate L config) els = pre @ it # post \<and>
            link it \<notin> link ` set pre)"
proof -
  let ?cs = "List.map_filter (candidate L config) els"
  have h: "headlines st = take (nat (max 1 m)) (first_occurrences {} ?cs)"
    using extraction_refines(1) [OF assms] by (simp only: spec_extract_def)
  have 1: "distinct (map link (headlines st))"
    unfolding h take_map [symmetric] by (rule distinct_take) (rule first_occurrences_distinct)
  have 3: "subseq (headlines st) ?cs"
    unfolding h using first_occurrences_subseq by (rule subseq_trans_take)
  have 4: "\<forall>it \<in> set (headlines st). \<exists>pre post. ?cs = pre @ it # post \<and> link it \<notin> link ` set pre"
  proof
    fix it assume "it \<in> set (headlines st)"
    then have "it \<in> set (first_occurrences {} ?cs)" unfolding h by (rule in_set_takeD)
    then show "\<exists>pre post. ?cs = pre @ it # post \<and> link it \<notin> link ` set pre"
      by (rule first_occurrences_first)
  qed
  from 1 extraction_refines(1) [OF assms] 3 4 show ?thesis by (intro conjI)
qed

theorem extraction_first_occurrence_witness:
  "distinct (map link (headlines example_result)) \<and>
   headlines example_result = spec_extract (example_lib example_page) example_rule 2 example_page"
proof -
  note t = extraction_first_occurrence [OF example_select example_extraction]
  from t [THEN conjunct1] t [THEN conjunct2, THEN conjunct1] show ?thesis by (rule conjI)
qed

text \<open>
  C7: every headline of the result is non-empty and stripped, with no white space at
  either end; an element whose stripped text is empty, or whose \<open>href\<close> the rule's
  \<open>link_filter\<close> rejects, leaves the loop's result and store as they are without it.
\<close>

theorem extraction_headline_nonempty:
  "(soup_select L text (headline_selector config) = Inr els \<and>
    extraction L config m text st0 = Inr st \<longrightarrow>
      (\<forall>it \<in> set (headlines st).
         headline it \<noteq> [] \<and> strip (headline it) = headline it \<and>
         \<not> isspace (hd (headline it)) \<and> \<not> isspace (last (headline it)))) \<and>
   (strip (get_text el) = [] \<or>
    (\<exists>la. link_element el = Some la \<and> \<not> link_filter config (get la ''href'' [])) \<longrightarrow>
      headlines_loop L config m (xs @ el # ys) st1 = headlines_loop L config m (xs @ ys) st1)"
proof (intro conjI impI ballI)
  fix it
  assume a: "soup_select L text (headline_selector config) = Inr els \<and>
    extraction L config m text st0 = Inr st" and "it \<in> set (headlines st)"
  then have "it \<in> set (spec_extract L config m els)"
    using extraction_refines(1) [of L "text" config els m st0 st] by simp
  then obtain e where "candidate L config e = Some it"
    using spec_extract_mem by blast
  then have h: "headline it = strip (get_text e)" and ne: "headline it \<noteq> []"
    using candidate_Some by blast+
  show "headline it \<noteq> []" by (rule ne)
  show "strip (headline it) = headline it" unfolding h by (rule strip_idem)
  show "\<not> isspace (hd (headline it))" using strip_trimmed ne unfolding h by blast
  show "\<not> isspace (last (headline it))" using strip_trimmed ne unfolding h by blast
next
  assume "strip (get_text el) = [] \<or>
    (\<exists>la. link_element el = Some la \<and> \<not> link_filter config (get la ''href'' []))"
  then have "skipped config el"
    by (auto simp: skipped_def href_of_def)
  then show "headlines_loop L config m (xs @ el # ys) st1 = headlines_loop L config m (xs @ ys) st1"
    by (rule loop_skip_anywhere)
qed

theorem extraction_headline_nonempty_witness:
  "headline \<lparr> headline = ''First'', link = ''https://example.com/a'' \<rparr> \<noteq> [] \<and>
   headlines_loop (example_lib []) example_rule 2
     ([example_anchor ''/a'' ''First''] @ example_anchor ''#top'' ''Top'' #
      [example_anchor ''/b'' ''Second'']) empty_store =
   headlines_loop (example_lib []) example_rule 2
     ([example_anchor ''/a'' ''First''] @ [example_anchor ''/b'' ''Second'']) empty_store \<and>
   headlines_loop (example_lib []) example_rule 2
     ([example_anchor ''/a'' ''First''] @ example_anchor ''/c'' ''   '' #
      [example_anchor ''/b'' ''Second'']) empty_store =
   headlines_loop (example_lib []) example_rule 2
     ([example_anchor ''/a'' ''First''] @ [example_anchor ''/b'' ''Second'']) empty_store"
proof -
  have a: "soup_select (example_lib example_page) [] (headline_selector example_rule) =
             Inr example_page \<and>
           extraction (example_lib example_page) example_rule 2 [] empty_store =
             Inr example_result"
    using example_select example_extraction by (rule conjI)
  have 1: "headline \<lparr> headline = ''First'', link = ''https://example.com/a'' \<rparr> \<noteq> []"
    using extraction_headline_nonempty [THEN conjunct1, THEN mp, OF a, THEN bspec,
        OF example_item_mem, THEN conjunct1] .
  have "link_element (example_anchor ''#top'' ''Top'') = Some [''href'' \<mapsto> ''#top''] \<and>
      \<not> link_filter example_rule (get [''href'' \<mapsto> ''#top''] ''href'' [])"
    by (simp add: example_anchor_reads get_def example_rule_reads)
  then have b: "strip (get_text (example_anchor ''#top'' ''Top'')) = [] \<or>
      (\<exists>la. link_element (example_anchor ''#top'' ''Top'') = Some la \<and>
         \<not> link_filter example_rule (get la ''href'' []))"
    by blast
  have c: "strip (get_text (example_anchor ''/c'' ''   '')) = [] \<or>
      (\<exists>la. link_element (example_anchor ''/c'' ''   '') = Some la \<and>
         \<not> link_filter example_rule (get la ''href'' []))"
    by (simp add: example_anchor_reads strip_examples)
  note 2 = extraction_headline_nonempty [THEN conjunct2, THEN mp, OF b]
  note 3 = extraction_headline_nonempty [THEN conjunct2, THEN mp, OF c]
  from 1 2 3 show ?thesis by (intro conjI)
qed

text \<open>
  C8: every entry of the result has a non-empty link and the empty string is never in
  \<open>seen_urls\<close>; an element that is no \<open>a\<close> tag and has no \<open>a\<close> ancestor, and an
  element whose \<open>href\<close> is the empty string, leave the loop's result and store as they
  are without them, and \<open>urljoin\<close> is not called for them.
\<close>

theorem extraction_items_have_link:
  "(soup_select L text (headline_selector config) = Inr els \<and>
    extraction L config m text st0 = Inr st \<longrightarrow>
      (\<forall>it \<in> set (headlines st). link it \<noteq> []) \<and> [] \<notin> seen_urls st) \<and>
   (name el \<noteq> ''a'' \<and> (\<forall>p \<in> set (parents el). fst p \<noteq> ''a'') \<longrightarrow>
      headlines_loop L config m (xs @ el # ys) st1 = headlines_loop L config m (xs @ ys) st1) \<and>
   (link_element el = Some la \<and> get la ''href'' [] = [] \<longrightarrow>
      headlines_loop L config m (xs @ el # ys) st1 = headlines_loop L config m (xs @ ys) st1)"
proof (intro conjI impI)
  assume a: "soup_select L text (headline_selector config) = Inr els \<and>
    extraction L config m text st0 = Inr st"
  show l: "\<forall>it \<in> set (headlines st). link it \<noteq> []"
  proof
    fix it assume "it \<in> set (headlines st)"
    with a have "it \<in> set (spec_extract L config m els)"
      using extraction_refines(1) [of L "text" config els m st0 st] by simp
    then obtain e where "candidate L config e = Some it"
      using spec_extract_mem by blast
    then show "link it \<noteq> []" using candidate_Some by blast
  qed
  have "seen_urls st = link ` set (headlines st)"
    using a extraction_refines(2) [of L "text" config els m st0 st] by simp
  with l show "[] \<notin> seen_urls st" by auto
next
  assume "name el \<noteq> ''a'' \<and> (\<forall>p \<in> set (parents el). fst p \<noteq> ''a'')"
  then have "link_element el = None"
    by (simp add: link_element_def find_parent_None)
  then have "skipped config el" by (simp add: skipped_def)
  then show "headlines_loop L config m (xs @ el # ys) st1 = headlines_loop L config m (xs @ ys) st1"
    by (rule loop_skip_anywhere)
next
  assume "link_element el = Some la \<and> get la ''href'' [] = []"
  then have "skipped config el" by (simp add: skipped_def href_of_def)
  then show "headlines_loop L config m (xs @ el # ys) st1 = headlines_loop L config m (xs @ ys) st1"
    by (rule loop_skip_anywhere)
qed

theorem extraction_items_have_link_witness:
  "link \<lparr> headline = ''First'', link = ''https://example.com/a'' \<rparr> \<noteq> [] \<and>
   headlines_loop (example_lib []) example_rule 2
     ([example_anchor ''/a'' ''First''] @ example_plain ''Title'' #
      [example_anchor ''/b'' ''Second'']) empty_store =
   headlines_loop (example_lib []) example_rule 2
     ([example_anchor ''/a'' ''First''] @ [example_anchor ''/b'' ''Second'']) empty_store \<and>
   headlines_loop (example_lib []) example_rule 2
     ([example_anchor ''/a'' ''First''] @ example_anchor [] ''Empty'' #
      [example_anchor ''/b'' ''Second'']) empty_store =
   headlines_loop (example_lib []) example_rule 2
     ([example_anchor ''/a'' ''First''] @ [example_anchor ''/b'' ''Second'']) empty_store"
proof -
  have a: "soup_select (example_lib example_page) [] (headline_selector example_rule) =
             Inr example_page \<and>
           extraction (example_lib example_page) example_rule 2 [] empty_store =
             Inr example_result"
    using example_select example_extraction by (rule conjI)
  have 1: "link \<lparr> headline = ''First'', link = ''https://example.com/a'' \<rparr> \<noteq> []"
    using extraction_items_have_link [THEN conjunct1, THEN mp, OF a, THEN conjunct1, THEN bspec,
        OF example_item_mem] .
  have b: "name (example_plain ''Title'') \<noteq> ''a'' \<and>
           (\<forall>p \<in> set (parents (example_plain ''Title'')). fst p \<noteq> ''a'')"
    using example_plain_reads by (rule conjI)
  have c: "link_element (example_anchor [] ''Empty'') = Some [''href'' \<mapsto> []] \<and>
           get [''href'' \<mapsto> []] ''href'' [] = []"
    by (simp add: example_anchor_reads get_def)
  note 2 = extraction_items_have_link [THEN conjunct2, THEN conjunct1, THEN mp, OF b]
  note 3 = extraction_items_have_link [THEN conjunct2, THEN conjunct2, THEN mp, OF c]
  from 1 2 3 show ?thesis by (intro conjI)
qed

text \<open>
  C9: the extraction block and the whole script do not depend on the \<open>headlines\<close> and
  \<open>seen_urls\<close> they find, as the block starts from an empty list and a new set; a run
  that starts from the store an earlier run has left gives the same store again.
\<close>

theorem extraction_fresh_state:
  "extraction L config m text st1 = extraction L config m text st2 \<and>
   scrape_news L source override st1 = scrape_news L source override st2 \<and>
   (extraction L config m text st1 = Inr st \<longrightarrow> extraction L config m text st = Inr st)"
proof -
  have e: "\<And>c k t. extraction L c k t st1 = extraction L c k t st2"
    by (simp add: extraction_def)
  have t: "\<And>s c k. try_body L s c k st1 = try_body L s c k st2"
    by (simp only: try_body_def e)
  have 1: "extraction L config m text st1 = extraction L config m text st2"
    by (rule e)
  have 2: "scrape_news L source override st1 = scrape_news L source override st2"
    by (simp only: scrape_news_def t)
  have 3: "extraction L config m text st1 = Inr st \<longrightarrow> extraction L config m text st = Inr st"
    by (simp add: extraction_def)
  from 1 2 3 show ?thesis by (intro conjI)
qed

theorem extraction_fresh_state_witness:
  "extraction (example_lib example_page) example_rule 2 [] example_result = Inr example_result"
  using extraction_fresh_state [THEN conjunct2, THEN conjunct2, THEN mp, OF example_extraction] .

text \<open>
  C10: when the headline selector matches no element, the extraction block ends
  normally with an empty list.
\<close>

theorem extraction_no_match:
  "soup_select L text (headline_selector config) = Inr [] \<Longrightarrow>
   extraction L config m text st0 = Inr \<lparr> headlines = [], seen_urls = {} \<rparr>"
  by (simp add: extraction_def)

theorem extraction_no_match_witness:
  "extraction (example_lib []) bbc 10 [] empty_store = Inr \<lparr> headlines = [], seen_urls = {} \<rparr>"
  by (rule extraction_no_match) (rule example_lib_reads)

end
